theory Spec2Isabelle
  imports Main "HOL-Library.AList"
begin

section \<open>Data model\<close>

text \<open>
  A value thrown by JavaScript code. The gallery only ever inspects a thrown value
  through \<^verbatim>\<open>error instanceof Error ? error.message : 'Unknown error'\<close>,
  so an \<^verbatim>\<open>Error\<close> instance is its message and everything else is one
  further constructor.
\<close>

datatype thrown = Error (message: string) | NonError

text \<open>
  Modelled from the spec: the type declarations of \<^verbatim>\<open>./types\<close>
  (\<^verbatim>\<open>Artwork\<close>, \<^verbatim>\<open>ArtworkApiResponse\<close>) are imported by both
  source files but are not among them. The fields are the ones the code reads; the
  field \<^verbatim>\<open>id\<close> is called \<open>artwork_id\<close> here.
\<close>

record Artwork =
  artwork_id :: int
  title :: "string option"
  place_of_origin :: "string option"
  artist_display :: "string option"
  inscriptions :: "string option"
  date_start :: "int option"
  date_end :: "int option"

record Pagination =
  total_pages :: int

record ArtworkApiResponse =
  data :: "Artwork list"
  pagination :: Pagination

text \<open>
  What \<^verbatim>\<open>fetchArtworks\<close> reads of a \<^verbatim>\<open>Response\<close>: the flag
  \<^verbatim>\<open>ok\<close>, the \<^verbatim>\<open>status\<close> and the outcome of \<^verbatim>\<open>await response.json()\<close>,
  which either throws or yields the decoded body. The transport maps a page number to the
  outcome of \<^verbatim>\<open>await fetch(url)\<close> for that page: a rejection or a response.
\<close>

record Response =
  ok :: bool
  status :: int
  json :: "thrown + ArtworkApiResponse"

type_synonym transport = "int \<Rightarrow> thrown + Response"

text \<open>
  The observable effects of the code: the page numbers requested over the network, in
  order, and the lines written with \<^verbatim>\<open>console.error\<close> (the text and the logged value).
\<close>

datatype log_entry = ConsoleError string thrown

record effects =
  requests :: "int list"
  console :: "log_entry list"

text \<open>
  The selection object \<^verbatim>\<open>{ [id: number]: boolean }\<close> as an association list;
  \<^verbatim>\<open>{...prev, [k]: v}\<close> and \<^verbatim>\<open>obj[k] = v\<close> are \<^const>\<open>AList.update\<close>,
  a lookup is \<^const>\<open>map_of\<close>, \<^verbatim>\<open>Object.values\<close> is \<open>map snd\<close>.
\<close>

type_synonym selection = "(int \<times> bool) list"

text \<open>
  The component state: the six \<^verbatim>\<open>useState\<close> cells and the three fields taken from
  the result of \<^verbatim>\<open>useQuery\<close>.
\<close>

record app_state =
  currentPage :: int
  selectedArtworkIds :: selection
  totalPages :: int
  rowsToSelect :: string
  isProcessingSelection :: bool
  isDropdownOpen :: bool
  apiResponse :: "ArtworkApiResponse option"
  isLoading :: bool
  error :: "thrown option"

text \<open>The initial values of the state cells, with the first query still in flight.\<close>

definition initial_state :: app_state where
  "initial_state =
     \<lparr>currentPage = 1, selectedArtworkIds = [], totalPages = 0, rowsToSelect = [],
      isProcessingSelection = False, isDropdownOpen = False,
      apiResponse = None, isLoading = True, error = None\<rparr>"

section \<open>Numbers in template literals\<close>

text \<open>
  \<^verbatim>\<open>`${n}`\<close> for an integral number \<open>n\<close>: its decimal digits, with a minus sign
  when negative.
\<close>

definition digit_char :: "nat \<Rightarrow> char" where
  "digit_char d = ''0123456789'' ! d"

function string_of_nat :: "nat \<Rightarrow> string" where
  "string_of_nat n =
     (if n < 10 then [digit_char n]
      else string_of_nat (n div 10) @ [digit_char (n mod 10)])"
  by pat_completeness auto
termination
  by (relation "measure (\<lambda>n. n)") auto

declare string_of_nat.simps [simp del]

definition number_toString :: "int \<Rightarrow> string" where
  "number_toString i =
     (if i < 0 then CHR ''-'' # string_of_nat (nat (- i)) else string_of_nat (nat i))"

section \<open>The fetch gateway (api.ts)\<close>

text \<open>The body of the \<^verbatim>\<open>try\<close> block: what it returns, or what it throws.\<close>

definition fetchArtworks_try :: "transport \<Rightarrow> int \<Rightarrow> thrown + ArtworkApiResponse" where
  "fetchArtworks_try fetch_http pageNumber =
     (case fetch_http pageNumber of
        Inl e \<Rightarrow> Inl e
      | Inr response \<Rightarrow>
          if \<not> ok response
          then Inl (Error (''HTTP error! status: '' @ number_toString (status response)))
          else json response)"

text \<open>
  The whole function: one request; the \<^verbatim>\<open>catch\<close> block logs what was thrown and
  throws it again.
\<close>

definition fetchArtworks ::
  "transport \<Rightarrow> int \<Rightarrow> effects \<Rightarrow> (thrown + ArtworkApiResponse) \<times> effects" where
  "fetchArtworks fetch_http pageNumber eff =
     (let eff1 = eff\<lparr>requests := requests eff @ [pageNumber]\<rparr>
      in case fetchArtworks_try fetch_http pageNumber of
           Inl e \<Rightarrow>
             (Inl e, eff1\<lparr>console := console eff1 @ [ConsoleError ''Error fetching artworks:'' e]\<rparr>)
         | Inr d \<Rightarrow> (Inr d, eff1))"

section \<open>Selection bookkeeping (App)\<close>

text \<open>
  Each handler is applied to the state of the render it was created in, so the values it
  reads from its closure and the previous state its updater receives are the same state.
\<close>

definition currentPageArtworks :: "app_state \<Rightarrow> Artwork list" where
  "currentPageArtworks st = (case apiResponse st of None \<Rightarrow> [] | Some r \<Rightarrow> data r)"

definition isArtworkSelected :: "app_state \<Rightarrow> int \<Rightarrow> bool" where
  "isArtworkSelected st artworkId = (map_of (selectedArtworkIds st) artworkId = Some True)"

definition areAllCurrentPageArtworksSelected :: "app_state \<Rightarrow> bool" where
  "areAllCurrentPageArtworksSelected st =
     (if length (currentPageArtworks st) = 0 then False
      else list_all (\<lambda>artwork. isArtworkSelected st (artwork_id artwork)) (currentPageArtworks st))"

definition getCurrentPageSelectedCount :: "app_state \<Rightarrow> int" where
  "getCurrentPageSelectedCount st =
     (if length (currentPageArtworks st) = 0 then 0
      else int (length (filter (\<lambda>artwork. isArtworkSelected st (artwork_id artwork))
                          (currentPageArtworks st))))"

definition getTotalSelectedArtworkCount :: "app_state \<Rightarrow> int" where
  "getTotalSelectedArtworkCount st =
     int (length (filter (\<lambda>isSelected. isSelected) (map snd (selectedArtworkIds st))))"

definition toggleArtworkSelection :: "app_state \<Rightarrow> int \<Rightarrow> app_state" where
  "toggleArtworkSelection st artworkId =
     (let isCurrentlySelected = isArtworkSelected st artworkId
      in st\<lparr>selectedArtworkIds :=
              AList.update artworkId (\<not> isCurrentlySelected) (selectedArtworkIds st)\<rparr>)"

definition toggleAllCurrentPageArtworks :: "app_state \<Rightarrow> app_state" where
  "toggleAllCurrentPageArtworks st =
     (let allCurrentlySelected = areAllCurrentPageArtworksSelected st;
          currentPageArtworkIds = map artwork_id (currentPageArtworks st)
      in st\<lparr>selectedArtworkIds :=
              fold (\<lambda>artworkId updatedSelection.
                      AList.update artworkId (\<not> allCurrentlySelected) updatedSelection)
                   currentPageArtworkIds (selectedArtworkIds st)\<rparr>)"

definition clearAllSelections :: "app_state \<Rightarrow> app_state" where
  "clearAllSelections st = st\<lparr>selectedArtworkIds := []\<rparr>"

section \<open>Selecting the first rows across pages\<close>

text \<open>The local variables of \<^verbatim>\<open>performMultiPageSelection\<close>.\<close>

record selection_run =
  currentSelections :: selection
  selectedCount :: int
  pageToFetch :: int

text \<open>
  The loop \<^verbatim>\<open>for (const artwork of ...)\<close>, which occurs twice with the same body: mark
  the artwork while fewer than \<open>numToSelect\<close> are counted, otherwise \<^verbatim>\<open>break\<close>.
\<close>

fun mark_artworks :: "int \<Rightarrow> Artwork list \<Rightarrow> selection_run \<Rightarrow> selection_run" where
  "mark_artworks numToSelect [] r = r"
| "mark_artworks numToSelect (artwork # rest) r =
     (if selectedCount r < numToSelect
      then mark_artworks numToSelect rest
             (r\<lparr>currentSelections := AList.update (artwork_id artwork) True (currentSelections r),
                selectedCount := selectedCount r + 1\<rparr>)
      else r)"

lemma pageToFetch_mark_artworks [simp]:
  "pageToFetch (mark_artworks n as r) = pageToFetch r"
  by (induction as arbitrary: r) auto

text \<open>
  The \<^verbatim>\<open>while\<close> loop. A page whose fetch throws is logged by the \<^verbatim>\<open>catch\<close>
  block, which then leaves the loop.
\<close>

function fetch_loop ::
  "transport \<Rightarrow> int \<Rightarrow> int \<Rightarrow> selection_run \<times> effects \<Rightarrow> selection_run \<times> effects" where
  "fetch_loop fetch_http numToSelect nPages (r, eff) =
     (if selectedCount r < numToSelect \<and> pageToFetch r < nPages
      then
        (let r1 = r\<lparr>pageToFetch := pageToFetch r + 1\<rparr>
         in case fetchArtworks fetch_http (pageToFetch r1) eff of
              (Inr pageData, eff1) \<Rightarrow>
                fetch_loop fetch_http numToSelect nPages
                  (mark_artworks numToSelect (data pageData) r1, eff1)
            | (Inl e, eff1) \<Rightarrow>
                (r1, eff1\<lparr>console := console eff1 @
                    [ConsoleError (''Error fetching page '' @ number_toString (pageToFetch r1)
                                     @ '' for selection:'') e]\<rparr>))
      else (r, eff))"
  by pat_completeness auto
termination
  by (relation "measure (\<lambda>(fetch_http, numToSelect, nPages, r, eff). nat (nPages - pageToFetch r))")
     auto

declare fetch_loop.simps [simp del]

text \<open>
  The whole operation. Nothing thrown inside it escapes, so it always returns; the result
  is the state after \<^verbatim>\<open>setSelectedArtworkIds(currentSelections)\<close>.
\<close>

definition performMultiPageSelection ::
  "transport \<Rightarrow> app_state \<Rightarrow> int \<Rightarrow> effects \<Rightarrow> (thrown + app_state) \<times> effects" where
  "performMultiPageSelection fetch_http st numToSelect eff =
     (let r0 = \<lparr>currentSelections = selectedArtworkIds st, selectedCount = 0,
                pageToFetch = currentPage st\<rparr>;
          r1 = mark_artworks numToSelect (currentPageArtworks st) r0;
          (r2, eff2) = fetch_loop fetch_http numToSelect (totalPages st) (r1, eff)
      in (Inr (st\<lparr>selectedArtworkIds := currentSelections r2\<rparr>), eff2))"

section \<open>Navigation\<close>

definition goToFirstPage :: "app_state \<Rightarrow> app_state" where
  "goToFirstPage st = st\<lparr>currentPage := 1\<rparr>"

definition goToLastPage :: "app_state \<Rightarrow> app_state" where
  "goToLastPage st = st\<lparr>currentPage := totalPages st\<rparr>"

definition goToPage :: "app_state \<Rightarrow> int \<Rightarrow> app_state" where
  "goToPage st pageNumber =
     (if pageNumber \<ge> 1 \<and> pageNumber \<le> totalPages st
      then st\<lparr>currentPage := pageNumber\<rparr> else st)"

text \<open>
  The \<^verbatim>\<open>for\<close> loop that fills the array \<^verbatim>\<open>range\<close>, here \<open>pages\<close>.
\<close>

function range_loop :: "int \<Rightarrow> int \<Rightarrow> int list \<Rightarrow> int list" where
  "range_loop i hi pages = (if i \<le> hi then range_loop (i + 1) hi (pages @ [i]) else pages)"
  by pat_completeness auto
termination
  by (relation "measure (\<lambda>(i, hi, pages). nat (hi + 1 - i))") auto

declare range_loop.simps [simp del]

definition getVisiblePageNumbers :: "app_state \<Rightarrow> int list" where
  "getVisiblePageNumbers st =
     (let delta = 2;
          pages = range_loop (max 2 (currentPage st - delta))
                    (min (totalPages st - 1) (currentPage st + delta)) [];
          rangeWithDots = (if currentPage st - delta > 2 then [1, - 1] else [1]);
          rangeWithDots = rangeWithDots @ pages
      in if currentPage st + delta < totalPages st - 1 then rangeWithDots @ [- 1, totalPages st]
         else if totalPages st > 1 then rangeWithDots @ [totalPages st]
         else rangeWithDots)"

text \<open>The pager state the specification asks for.\<close>

definition pager_invariant :: "app_state \<Rightarrow> bool" where
  "pager_invariant st = (currentPage st \<ge> 1 \<and> totalPages st \<ge> 0)"

section \<open>What the component renders\<close>

text \<open>
  The four alternatives of the component's result, in the order the code tests them; of the
  gallery only the rows given to the table are kept.
\<close>

datatype view =
    ErrorMessage string
  | InfoMessage string
  | LoadingOverlay string
  | Gallery "Artwork list"

definition App_render :: "app_state \<Rightarrow> view" where
  "App_render st =
     (case error st of
        Some e \<Rightarrow>
          (let errorMessage = (case e of Error m \<Rightarrow> m | NonError \<Rightarrow> ''Unknown error'')
           in ErrorMessage (''Failed to load artworks: '' @ errorMessage))
      | None \<Rightarrow>
          if \<not> isLoading st \<and> length (currentPageArtworks st) = 0
          then InfoMessage ''No artworks found for this page.''
          else if isLoading st \<or> isProcessingSelection st
          then LoadingOverlay (if isProcessingSelection st then ''Selecting rows...''
                               else ''Loading artworks...'')
          else Gallery (currentPageArtworks st))"

definition rendered_rows :: "view \<Rightarrow> Artwork list" where
  "rendered_rows v = (case v of Gallery rows \<Rightarrow> rows | _ \<Rightarrow> [])"

text \<open>
  How the query library hands the outcome of the query function to the component, once the
  query has settled: a rejection becomes \<^verbatim>\<open>error\<close> with no data, a value becomes
  \<^verbatim>\<open>data\<close> with no error.
\<close>

definition query_settled :: "app_state \<Rightarrow> thrown + ArtworkApiResponse \<Rightarrow> app_state" where
  "query_settled st outcome =
     (case outcome of
        Inl e \<Rightarrow> st\<lparr>apiResponse := None, isLoading := False, error := Some e\<rparr>
      | Inr d \<Rightarrow> st\<lparr>apiResponse := Some d, isLoading := False, error := None\<rparr>)"

section \<open>Notions used to state the properties\<close>

text \<open>
  These are not functions of the program; they say what the specification's sentences
  speak of. First, marking a list of ids as selected, one after the other, and the number
  of \<open>true\<close> values of a selection object.
\<close>

definition mark_ids :: "int list \<Rightarrow> selection \<Rightarrow> selection" where
  "mark_ids ks sel = fold (\<lambda>k. AList.update k True) ks sel"

definition selected_count :: "selection \<Rightarrow> nat" where
  "selected_count sel = length (filter (\<lambda>b. b) (map snd sel))"

text \<open>
  The rows of page \<open>q\<close> as the gateway delivers them (none when the fetch fails), the rows
  of the pages after \<open>lo\<close> up to \<open>hi\<close> in ascending page order, and the specification's
  ``items going forward'': the rows of the current page followed by those of all later
  pages, in page and display order.
\<close>

definition page_items :: "transport \<Rightarrow> int \<Rightarrow> Artwork list" where
  "page_items fetch_http q =
     (case fetchArtworks_try fetch_http q of Inl e \<Rightarrow> [] | Inr d \<Rightarrow> data d)"

definition later_artworks :: "transport \<Rightarrow> int \<Rightarrow> int \<Rightarrow> Artwork list" where
  "later_artworks fetch_http lo hi = concat (map (page_items fetch_http) [lo + 1..hi])"

definition forward_artworks :: "transport \<Rightarrow> app_state \<Rightarrow> Artwork list" where
  "forward_artworks fetch_http st =
     currentPageArtworks st @ later_artworks fetch_http (currentPage st) (totalPages st)"

subsection \<open>Sample values\<close>

definition sample_artwork :: "int \<Rightarrow> Artwork" where
  "sample_artwork k =
     \<lparr>artwork_id = k, title = None, place_of_origin = None, artist_display = None,
      inscriptions = None, date_start = None, date_end = None\<rparr>"

definition sample_response :: "int list \<Rightarrow> ArtworkApiResponse" where
  "sample_response ks = \<lparr>data = map sample_artwork ks, pagination = \<lparr>total_pages = 3\<rparr>\<rparr>"

text \<open>
  A collection of three pages, the third of which the server answers with status 500; the
  network is down for every other page number.
\<close>

definition sample_transport :: transport where
  "sample_transport q =
     (if q = 1 then Inr \<lparr>ok = True, status = 200, json = Inr (sample_response [1, 2])\<rparr>
      else if q = 2 then Inr \<lparr>ok = True, status = 200, json = Inr (sample_response [3, 4])\<rparr>
      else if q = 3 then Inr \<lparr>ok = False, status = 500, json = Inl (Error ''Unexpected token'')\<rparr>
      else Inl (Error ''Failed to fetch''))"

text \<open>The first page of that collection on display, nothing selected.\<close>

definition sample_state :: app_state where
  "sample_state =
     initial_state\<lparr>totalPages := 3, apiResponse := Some (sample_response [1, 2]),
                   isLoading := False\<rparr>"

definition no_effects :: effects where
  "no_effects = \<lparr>requests = [], console = []\<rparr>"

section \<open>Auxiliary facts\<close>

lemma range_loop_upto: "range_loop i hi pages = pages @ [i..hi]"
proof (induction i hi pages rule: range_loop.induct)
  case (1 i hi pages)
  show ?case
  proof (cases "i \<le> hi")
    case True
    with 1 show ?thesis
      by (subst range_loop.simps) (simp add: upto_rec1)
  next
    case False
    then show ?thesis
      by (subst range_loop.simps) simp
  qed
qed

lemma map_of_fold_update:
  "map_of (fold (\<lambda>k. AList.update k v) ks al) j = (if j \<in> set ks then Some v else map_of al j)"
  by (induction ks arbitrary: al) (auto simp: AList.update_conv')

lemma sample_state_page: "currentPageArtworks sample_state = [sample_artwork 1, sample_artwork 2]"
  by (simp add: sample_state_def currentPageArtworks_def sample_response_def)

lemma sample_artwork_id: "artwork_id (sample_artwork k) = k"
  by (simp add: sample_artwork_def)

lemma map_of_mark_ids:
  "map_of (mark_ids ks sel) j = (if j \<in> set ks then Some True else map_of sel j)"
  by (simp add: mark_ids_def map_of_fold_update)

lemma mark_ids_append: "mark_ids (ks @ ks') sel = mark_ids ks' (mark_ids ks sel)"
  by (simp add: mark_ids_def)

lemma mark_ids_Nil: "mark_ids [] sel = sel"
  by (simp add: mark_ids_def)

lemma mark_artworks_eq:
  "mark_artworks n as r =
     r\<lparr>currentSelections :=
          mark_ids (map artwork_id (take (nat (n - selectedCount r)) as)) (currentSelections r),
       selectedCount := selectedCount r + int (length (take (nat (n - selectedCount r)) as))\<rparr>"
proof (induction as arbitrary: r)
  case Nil
  then show ?case by (simp add: mark_ids_def)
next
  case (Cons a as)
  show ?case
  proof (cases "selectedCount r < n")
    case True
    then have k: "nat (n - selectedCount r) = Suc (nat (n - (selectedCount r + 1)))"
      by arith
    show ?thesis
      using True k by (simp add: Cons.IH mark_ids_def)
  next
    case False
    then show ?thesis by (simp add: mark_ids_def)
  qed
qed

lemma later_artworks_empty: "hi \<le> lo \<Longrightarrow> later_artworks tr lo hi = []"
  by (simp add: later_artworks_def)

lemma later_artworks_step:
  "lo < hi \<Longrightarrow> later_artworks tr lo hi = page_items tr (lo + 1) @ later_artworks tr (lo + 1) hi"
  by (simp add: later_artworks_def upto_rec1 [of "lo + 1" hi])

lemma fetchArtworks_Inr:
  "fetchArtworks_try tr p = Inr d \<Longrightarrow>
   fetchArtworks tr p eff = (Inr d, eff\<lparr>requests := requests eff @ [p]\<rparr>)"
  by (simp add: fetchArtworks_def)

lemma fetchArtworks_Inl:
  "fetchArtworks_try tr p = Inl e \<Longrightarrow>
   fetchArtworks tr p eff =
     (Inl e, eff\<lparr>requests := requests eff @ [p],
               console := console eff @ [ConsoleError ''Error fetching artworks:'' e]\<rparr>)"
  by (simp add: fetchArtworks_def)

lemma fetch_loop_stop:
  "\<not> (selectedCount r < n \<and> pageToFetch r < tp) \<Longrightarrow> fetch_loop tr n tp (r, eff) = (r, eff)"
  by (subst fetch_loop.simps) auto

lemma fetch_loop_Inr:
  "selectedCount r < n \<Longrightarrow> pageToFetch r < tp \<Longrightarrow>
   fetchArtworks_try tr (pageToFetch r + 1) = Inr d \<Longrightarrow>
   fetch_loop tr n tp (r, eff) =
     fetch_loop tr n tp
       (mark_artworks n (data d) (r\<lparr>pageToFetch := pageToFetch r + 1\<rparr>),
        eff\<lparr>requests := requests eff @ [pageToFetch r + 1]\<rparr>)"
  by (subst fetch_loop.simps) (simp add: fetchArtworks_Inr)

lemma fetch_loop_Inl:
  "selectedCount r < n \<Longrightarrow> pageToFetch r < tp \<Longrightarrow>
   fetchArtworks_try tr (pageToFetch r + 1) = Inl e \<Longrightarrow>
   fetch_loop tr n tp (r, eff) =
     (r\<lparr>pageToFetch := pageToFetch r + 1\<rparr>,
      eff\<lparr>requests := requests eff @ [pageToFetch r + 1],
          console := console eff @
            [ConsoleError ''Error fetching artworks:'' e,
             ConsoleError (''Error fetching page '' @ number_toString (pageToFetch r + 1)
                             @ '' for selection:'') e]\<rparr>)"
  by (subst fetch_loop.simps) (simp add: fetchArtworks_Inl)

lemma fetch_loop_mono:
  "map_of (currentSelections r) j = Some True \<Longrightarrow>
   map_of (currentSelections (fst (fetch_loop tr n tp (r, eff)))) j = Some True"
proof (induction tr n tp "(r, eff)" arbitrary: r eff rule: fetch_loop.induct)
  case (1 tr n tp r eff)
  show ?case
  proof (cases "selectedCount r < n \<and> pageToFetch r < tp")
    case False
    then show ?thesis using "1.prems" by (simp add: fetch_loop_stop)
  next
    case True
    show ?thesis
    proof (cases "fetchArtworks_try tr (pageToFetch r + 1)")
      case (Inl e)
      then show ?thesis using True "1.prems" by (simp add: fetch_loop_Inl)
    next
      case (Inr d)
      let ?r1 = "r\<lparr>pageToFetch := pageToFetch r + 1\<rparr>"
      have m: "map_of (currentSelections (mark_artworks n (data d) ?r1)) j = Some True"
        using "1.prems" by (subst mark_artworks_eq) (simp add: map_of_mark_ids)
      have "map_of (currentSelections (fst (fetch_loop tr n tp
              (mark_artworks n (data d) ?r1, eff\<lparr>requests := requests eff @ [pageToFetch r + 1]\<rparr>)))) j
            = Some True"
        using True Inr m
        by (intro "1.hyps" [where x = ?r1]) (simp_all add: fetchArtworks_Inr)
      then show ?thesis using True Inr by (simp add: fetch_loop_Inr)
    qed
  qed
qed

lemma fetch_loop_success:
  assumes "\<forall>q \<in> set [pageToFetch r + 1..tp]. \<not> isl (fetchArtworks_try tr q)"
  shows "currentSelections (fst (fetch_loop tr n tp (r, eff))) =
           mark_ids (map artwork_id (take (nat (n - selectedCount r))
                                       (later_artworks tr (pageToFetch r) tp)))
                    (currentSelections r)
         \<and> console (snd (fetch_loop tr n tp (r, eff))) = console eff"
  using assms
proof (induction tr n tp "(r, eff)" arbitrary: r eff rule: fetch_loop.induct)
  case (1 tr n tp r eff)
  show ?case
  proof (cases "selectedCount r < n \<and> pageToFetch r < tp")
    case False
    then have "nat (n - selectedCount r) = 0 \<or> later_artworks tr (pageToFetch r) tp = []"
      by (auto simp: later_artworks_empty)
    then show ?thesis
      using False by (auto simp: fetch_loop_stop mark_ids_Nil)
  next
    case True
    let ?p = "pageToFetch r + 1"
    let ?r1 = "r\<lparr>pageToFetch := ?p\<rparr>"
    let ?eff1 = "eff\<lparr>requests := requests eff @ [?p]\<rparr>"
    let ?k = "nat (n - selectedCount r)"
    from True "1.prems" have "\<not> isl (fetchArtworks_try tr ?p)"
      by simp
    then obtain d where d: "fetchArtworks_try tr ?p = Inr d"
      by (cases "fetchArtworks_try tr ?p") auto
    let ?r2 = "mark_artworks n (data d) ?r1"
    have items: "page_items tr ?p = data d"
      by (simp add: page_items_def d)
    have later: "later_artworks tr (pageToFetch r) tp = data d @ later_artworks tr ?p tp"
      using True by (simp add: later_artworks_step items)
    have r2: "currentSelections ?r2 =
                mark_ids (map artwork_id (take ?k (data d))) (currentSelections r)"
         "selectedCount ?r2 = selectedCount r + int (length (take ?k (data d)))"
         "pageToFetch ?r2 = ?p"
      by (subst mark_artworks_eq, simp)+
    have rest: "nat (n - (selectedCount r + int (min (length (data d)) ?k))) = ?k - length (data d)"
      using True by arith
    have prem: "\<forall>q \<in> set [pageToFetch ?r2 + 1..tp]. \<not> isl (fetchArtworks_try tr q)"
      using "1.prems" by (simp add: r2(3))
    have ih: "currentSelections (fst (fetch_loop tr n tp (?r2, ?eff1))) =
           mark_ids (map artwork_id (take (nat (n - selectedCount ?r2))
                                       (later_artworks tr (pageToFetch ?r2) tp)))
                    (currentSelections ?r2)
         \<and> console (snd (fetch_loop tr n tp (?r2, ?eff1))) = console ?eff1"
      using True d prem
      by (intro "1.hyps" [where x = ?r1]) (simp_all add: fetchArtworks_Inr)
    have step: "fetch_loop tr n tp (r, eff) = fetch_loop tr n tp (?r2, ?eff1)"
      using True d by (simp add: fetch_loop_Inr)
    show ?thesis
      unfolding step using ih
      by (simp add: rest r2 later mark_ids_append)
  qed
qed


lemma fetch_loop_failure:
  assumes "pageToFetch r < p" and "p \<le> tp"
    and "fetchArtworks_try tr p = Inl e"
    and "\<forall>q \<in> set [pageToFetch r + 1..p - 1]. \<not> isl (fetchArtworks_try tr q)"
    and "selectedCount r + int (length (later_artworks tr (pageToFetch r) (p - 1))) < n"
  shows "fetch_loop tr n tp (r, eff) =
          (r\<lparr>currentSelections :=
                mark_ids (map artwork_id (later_artworks tr (pageToFetch r) (p - 1)))
                  (currentSelections r),
              selectedCount :=
                selectedCount r + int (length (later_artworks tr (pageToFetch r) (p - 1))),
              pageToFetch := p\<rparr>,
           eff\<lparr>requests := requests eff @ [pageToFetch r + 1..p],
               console := console eff @
                 [ConsoleError ''Error fetching artworks:'' e,
                  ConsoleError (''Error fetching page '' @ number_toString p
                                  @ '' for selection:'') e]\<rparr>)"
  using assms
proof (induction tr n tp "(r, eff)" arbitrary: r eff rule: fetch_loop.induct)
  case (1 tr n tp r eff)
  let ?p = "pageToFetch r + 1"
  let ?r1 = "r\<lparr>pageToFetch := ?p\<rparr>"
  let ?eff1 = "eff\<lparr>requests := requests eff @ [?p]\<rparr>"
  have cond: "selectedCount r < n" "pageToFetch r < tp"
    using "1.prems" by auto
  show ?case
  proof (cases "?p = p")
    case True
    then have "later_artworks tr (pageToFetch r) (p - 1) = []"
      by (auto simp: later_artworks_empty)
    moreover have "fetchArtworks_try tr ?p = Inl e"
      using True "1.prems" by simp
    ultimately show ?thesis
      using cond True by (simp add: fetch_loop_Inl mark_ids_Nil)
  next
    case False
    then have lt: "?p < p" "?p \<le> p - 1" "pageToFetch r < p - 1"
      using "1.prems" by auto
    then have "\<not> isl (fetchArtworks_try tr ?p)"
      using "1.prems" by simp
    then obtain d where d: "fetchArtworks_try tr ?p = Inr d"
      by (cases "fetchArtworks_try tr ?p") auto
    let ?r2 = "mark_artworks n (data d) ?r1"
    let ?rest = "later_artworks tr ?p (p - 1)"
    have items: "page_items tr ?p = data d"
      by (simp add: page_items_def d)
    have later: "later_artworks tr (pageToFetch r) (p - 1) = data d @ ?rest"
      using lt by (simp add: later_artworks_step items)
    have room: "length (data d) \<le> nat (n - selectedCount r)"
      using "1.prems"(5) by (simp add: later)
    have r2: "?r2 = r\<lparr>currentSelections := mark_ids (map artwork_id (data d)) (currentSelections r),
                       selectedCount := selectedCount r + int (length (data d)),
                       pageToFetch := ?p\<rparr>"
      using room by (subst mark_artworks_eq) (simp add: min_def)
    have step: "fetch_loop tr n tp (r, eff) = fetch_loop tr n tp (?r2, ?eff1)"
      using cond d by (simp add: fetch_loop_Inr)
    have ih: "fetch_loop tr n tp (?r2, ?eff1) =
          (?r2\<lparr>currentSelections :=
                mark_ids (map artwork_id (later_artworks tr (pageToFetch ?r2) (p - 1)))
                  (currentSelections ?r2),
              selectedCount :=
                selectedCount ?r2 + int (length (later_artworks tr (pageToFetch ?r2) (p - 1))),
              pageToFetch := p\<rparr>,
           ?eff1\<lparr>requests := requests ?eff1 @ [pageToFetch ?r2 + 1..p],
               console := console ?eff1 @
                 [ConsoleError ''Error fetching artworks:'' e,
                  ConsoleError (''Error fetching page '' @ number_toString p
                                  @ '' for selection:'') e]\<rparr>)"
      using cond d lt "1.prems"
      by (intro "1.hyps" [where x = ?r1]) (simp_all add: fetchArtworks_Inr r2 later)
    have upto: "[pageToFetch r + 1..p] = ?p # [?p + 1..p]"
      using lt by (simp add: upto_rec1)
    show ?thesis
      unfolding step ih
      by (simp add: r2 later mark_ids_append upto)
  qed
qed


lemma mark_artworks_first:
  "mark_artworks n as \<lparr>currentSelections = sel, selectedCount = 0, pageToFetch = c\<rparr> =
     \<lparr>currentSelections = mark_ids (map artwork_id (take (nat n) as)) sel,
      selectedCount = int (length (take (nat n) as)), pageToFetch = c\<rparr>"
  by (subst mark_artworks_eq) simp

lemma performMultiPageSelection_returns:
  "\<exists>st'. fst (performMultiPageSelection tr st n eff) = Inr st'"
  by (simp add: performMultiPageSelection_def Let_def split_def)

lemma performMultiPageSelection_success:
  assumes "\<forall>q \<in> set [currentPage st + 1..totalPages st]. \<not> isl (fetchArtworks_try tr q)"
  shows "fst (performMultiPageSelection tr st n eff) =
           Inr (st\<lparr>selectedArtworkIds :=
                  mark_ids (map artwork_id (take (nat n) (forward_artworks tr st)))
                    (selectedArtworkIds st)\<rparr>)"
    and "console (snd (performMultiPageSelection tr st n eff)) = console eff"
proof -
  let ?cur = "currentPageArtworks st"
  let ?r1 = "\<lparr>currentSelections = mark_ids (map artwork_id (take (nat n) ?cur)) (selectedArtworkIds st),
      selectedCount = int (length (take (nat n) ?cur)), pageToFetch = currentPage st\<rparr>"
  have loop: "currentSelections (fst (fetch_loop tr n (totalPages st) (?r1, eff))) =
           mark_ids (map artwork_id (take (nat (n - selectedCount ?r1))
                                       (later_artworks tr (pageToFetch ?r1) (totalPages st))))
                    (currentSelections ?r1)
         \<and> console (snd (fetch_loop tr n (totalPages st) (?r1, eff))) = console eff"
    using assms by (intro fetch_loop_success) simp
  have rest: "nat (n - int (min (length ?cur) (nat n))) = nat n - length ?cur"
    by arith
  show "fst (performMultiPageSelection tr st n eff) =
           Inr (st\<lparr>selectedArtworkIds :=
                  mark_ids (map artwork_id (take (nat n) (forward_artworks tr st)))
                    (selectedArtworkIds st)\<rparr>)"
    using loop
    by (simp add: performMultiPageSelection_def Let_def split_def mark_artworks_first
          forward_artworks_def mark_ids_append rest)
  show "console (snd (performMultiPageSelection tr st n eff)) = console eff"
    using loop
    by (simp add: performMultiPageSelection_def Let_def split_def mark_artworks_first)
qed

lemma selected_count_Nil: "selected_count [] = 0"
  by (simp add: selected_count_def)

lemma selected_count_Cons:
  "selected_count (p # al) = (if snd p then 1 else 0) + selected_count al"
  by (simp add: selected_count_def)

lemma selected_count_update_True:
  "selected_count (AList.update k True al) =
     selected_count al + (if map_of al k = Some True then 0 else 1)"
  by (induction al) (auto simp: selected_count_Nil selected_count_Cons)

lemma selected_count_mark_ids:
  "distinct ks \<Longrightarrow> \<forall>k \<in> set ks. map_of al k \<noteq> Some True \<Longrightarrow>
   selected_count (mark_ids ks al) = selected_count al + length ks"
proof (induction ks arbitrary: al)
  case Nil
  then show ?case by (simp add: mark_ids_def)
next
  case (Cons k ks)
  have "selected_count (mark_ids ks (AList.update k True al)) =
          selected_count (AList.update k True al) + length ks"
    using Cons.prems by (intro Cons.IH) (auto simp: AList.update_conv')
  then show ?case
    using Cons.prems by (simp add: mark_ids_def selected_count_update_True)
qed

lemma selected_count_pos:
  "(k, True) \<in> set al \<Longrightarrow> 0 < selected_count al"
  by (induction al) (auto simp: selected_count_Cons)

lemma selected_count_zero:
  assumes "selected_count al = 0"
  shows "map_of al k \<noteq> Some True"
proof
  assume "map_of al k = Some True"
  then have "(k, True) \<in> set al" by (rule map_of_SomeD)
  then have "0 < selected_count al" by (rule selected_count_pos)
  with assms show False by simp
qed

lemma getTotalSelectedArtworkCount_eq:
  "getTotalSelectedArtworkCount st = int (selected_count (selectedArtworkIds st))"
  by (simp add: getTotalSelectedArtworkCount_def selected_count_def)

lemma sample_fetch_2: "fetchArtworks_try sample_transport 2 = Inr (sample_response [3, 4])"
  by (simp add: fetchArtworks_try_def sample_transport_def)

lemma sample_fetch_3:
  "fetchArtworks_try sample_transport 3 = Inl (Error ''HTTP error! status: 500'')"
  by (simp add: fetchArtworks_try_def sample_transport_def number_toString_def
        string_of_nat.simps digit_char_def)

lemma sample_later_2:
  "later_artworks sample_transport 1 2 = [sample_artwork 3, sample_artwork 4]"
  by (simp add: later_artworks_def page_items_def sample_fetch_2 sample_response_def)

section \<open>The pager\<close>

text \<open>
  C4. With ten pages, the pager shows \<open>[1, 2, 3, -1, 10]\<close> on page 1 and
  \<open>[1, -1, 3, 4, 5, 6, 7, -1, 10]\<close> on page 5; with a single page it shows \<open>[1]\<close>.
  The marker \<open>-1\<close> stands for the ellipsis. The rest of the state plays no role.
\<close>

theorem C4_visible_pages_examples:
  "getVisiblePageNumbers (st\<lparr>currentPage := 1, totalPages := 10\<rparr>) = [1, 2, 3, - 1, 10] \<and>
   getVisiblePageNumbers (st\<lparr>currentPage := 5, totalPages := 10\<rparr>)
     = [1, - 1, 3, 4, 5, 6, 7, - 1, 10] \<and>
   getVisiblePageNumbers (st\<lparr>currentPage := 1, totalPages := 1\<rparr>) = [1]"
  by (simp add: getVisiblePageNumbers_def range_loop_upto)

text \<open>
  C2, as the code has it. Page 1 is pushed whatever the number of pages is, so with at
  most one page (also with none) and a current page of at least 1 the pager shows \<open>[1]\<close>,
  followed by an ellipsis marker when the current page is beyond 4; the result is never
  empty.
\<close>

theorem C2_visible_pages_at_most_one_page:
  assumes "1 \<le> currentPage st" and "totalPages st \<le> 1"
  shows "getVisiblePageNumbers st = (if currentPage st > 4 then [1, - 1] else [1])"
  using assms by (simp add: getVisiblePageNumbers_def range_loop_upto Let_def)

theorem C2_visible_pages_at_most_one_page_witness:
  "1 \<le> currentPage (initial_state\<lparr>totalPages := 1\<rparr>) \<and>
   totalPages (initial_state\<lparr>totalPages := 1\<rparr>) \<le> 1 \<and>
   getVisiblePageNumbers (initial_state\<lparr>totalPages := 1\<rparr>) = [1]"
  using C2_visible_pages_at_most_one_page [of "initial_state\<lparr>totalPages := 1\<rparr>"]
  by (simp add: initial_state_def)

text \<open>
  C2 as stated asks for the empty list when there are no pages. In the initial state
  (page 1, no page count known yet) the code returns \<open>[1]\<close>.
\<close>

theorem C2_no_pages_counterexample:
  "totalPages initial_state = 0 \<and> getVisiblePageNumbers initial_state = [1] \<and>
   getVisiblePageNumbers initial_state \<noteq> []"
  by (simp add: getVisiblePageNumbers_def range_loop_upto initial_state_def)

text \<open>
  C6, as the code has it. \<open>goToPage\<close> and \<open>goToFirstPage\<close> keep the pager invariant
  (current page at least 1, page count at least 0) from every state that satisfies it;
  \<open>goToLastPage\<close> keeps it when there is at least one page.
\<close>

theorem C6_navigation_keeps_pager_invariant:
  assumes "pager_invariant st"
  shows "pager_invariant (goToPage st pageNumber) \<and>
         pager_invariant (goToFirstPage st) \<and>
         (1 \<le> totalPages st \<longrightarrow> pager_invariant (goToLastPage st))"
  using assms
  by (simp add: pager_invariant_def goToPage_def goToFirstPage_def goToLastPage_def)

theorem C6_navigation_keeps_pager_invariant_witness:
  "pager_invariant sample_state \<and> 1 \<le> totalPages sample_state \<and>
   pager_invariant (goToPage sample_state 2) \<and>
   pager_invariant (goToFirstPage sample_state) \<and>
   pager_invariant (goToLastPage sample_state) \<and>
   currentPage (goToLastPage sample_state) = 3"
  using C6_navigation_keeps_pager_invariant [of sample_state 2]
  by (simp add: pager_invariant_def sample_state_def initial_state_def goToLastPage_def)

text \<open>
  C6 as stated covers \<open>goToLastPage\<close> from every state that satisfies the invariant. The
  initial state satisfies it, and \<open>goToLastPage\<close> moves it to page 0.
\<close>

theorem C6_go_to_last_page_counterexample:
  "pager_invariant initial_state \<and>
   currentPage (goToLastPage initial_state) = 0 \<and>
   \<not> pager_invariant (goToLastPage initial_state)"
  by (simp add: pager_invariant_def goToLastPage_def initial_state_def)

section \<open>Toggling\<close>

text \<open>
  C7. Toggling the same id twice in a row gives \<open>isArtworkSelected\<close> for that id its
  original value.
\<close>

theorem C7_toggle_twice:
  "isArtworkSelected
     (toggleArtworkSelection (toggleArtworkSelection st artworkId) artworkId) artworkId
   = isArtworkSelected st artworkId"
  by (simp add: toggleArtworkSelection_def isArtworkSelected_def AList.update_conv')

text \<open>
  C10. Toggling one id changes the selection status of no other id, and toggling the whole
  current page changes the status of no id that is not on the current page.
\<close>

theorem C10_toggle_frame:
  "(j \<noteq> artworkId \<longrightarrow>
      isArtworkSelected (toggleArtworkSelection st artworkId) j = isArtworkSelected st j) \<and>
   (j \<notin> set (map artwork_id (currentPageArtworks st)) \<longrightarrow>
      isArtworkSelected (toggleAllCurrentPageArtworks st) j = isArtworkSelected st j)"
  by (simp add: toggleArtworkSelection_def toggleAllCurrentPageArtworks_def
        isArtworkSelected_def Let_def AList.update_conv' map_of_fold_update)

theorem C10_toggle_frame_witness:
  "(7::int) \<noteq> 1 \<and> 7 \<notin> set (map artwork_id (currentPageArtworks sample_state)) \<and>
   isArtworkSelected (toggleArtworkSelection (toggleArtworkSelection sample_state 7) 1) 7 \<and>
   isArtworkSelected
     (toggleAllCurrentPageArtworks (toggleArtworkSelection sample_state 7)) 7"
proof -
  let ?st = "toggleArtworkSelection sample_state 7"
  have page: "currentPageArtworks ?st = currentPageArtworks sample_state"
    by (simp add: toggleArtworkSelection_def currentPageArtworks_def)
  have sel: "isArtworkSelected ?st 7"
    by (simp add: toggleArtworkSelection_def isArtworkSelected_def sample_state_def
          initial_state_def)
  show ?thesis
    using C10_toggle_frame [of 7 1 ?st] sel
    by (simp add: page sample_state_page sample_artwork_id)
qed

text \<open>
  C5. On a non-empty current page, \<open>toggleAllCurrentPageArtworks\<close> makes
  \<open>areAllCurrentPageArtworksSelected\<close> true when it was false, and when it was true makes
  it false with every artwork of the page deselected. On an empty current page it is false
  before and after.
\<close>

theorem C5_toggle_all_current_page:
  "(currentPageArtworks st \<noteq> [] \<longrightarrow>
      (\<not> areAllCurrentPageArtworksSelected st \<longrightarrow>
         areAllCurrentPageArtworksSelected (toggleAllCurrentPageArtworks st)) \<and>
      (areAllCurrentPageArtworksSelected st \<longrightarrow>
         \<not> areAllCurrentPageArtworksSelected (toggleAllCurrentPageArtworks st) \<and>
         (\<forall>artwork \<in> set (currentPageArtworks st).
            \<not> isArtworkSelected (toggleAllCurrentPageArtworks st) (artwork_id artwork)))) \<and>
   (currentPageArtworks st = [] \<longrightarrow>
      \<not> areAllCurrentPageArtworksSelected st \<and>
      \<not> areAllCurrentPageArtworksSelected (toggleAllCurrentPageArtworks st))"
proof -
  have cur: "currentPageArtworks (toggleAllCurrentPageArtworks st) = currentPageArtworks st"
    by (simp add: toggleAllCurrentPageArtworks_def currentPageArtworks_def Let_def)
  have sel: "\<And>a. a \<in> set (currentPageArtworks st) \<Longrightarrow>
      isArtworkSelected (toggleAllCurrentPageArtworks st) (artwork_id a)
        = (\<not> areAllCurrentPageArtworksSelected st)"
    by (simp add: toggleAllCurrentPageArtworks_def isArtworkSelected_def Let_def
          map_of_fold_update)
  show ?thesis
  proof (cases "currentPageArtworks st")
    case Nil
    then show ?thesis
      using cur by (simp add: areAllCurrentPageArtworksSelected_def)
  next
    case (Cons a as)
    have "areAllCurrentPageArtworksSelected (toggleAllCurrentPageArtworks st)
            = (\<not> areAllCurrentPageArtworksSelected st)"
      unfolding areAllCurrentPageArtworksSelected_def [of "toggleAllCurrentPageArtworks st"] cur
      using sel Cons by (auto simp: list_all_iff)
    then show ?thesis
      using sel Cons by auto
  qed
qed

theorem C5_toggle_all_current_page_witness:
  "currentPageArtworks sample_state \<noteq> [] \<and>
   \<not> areAllCurrentPageArtworksSelected sample_state \<and>
   areAllCurrentPageArtworksSelected (toggleAllCurrentPageArtworks sample_state) \<and>
   currentPageArtworks initial_state = [] \<and>
   \<not> areAllCurrentPageArtworksSelected (toggleAllCurrentPageArtworks initial_state)"
proof -
  have none: "\<And>j. \<not> isArtworkSelected sample_state j"
    by (simp add: isArtworkSelected_def sample_state_def initial_state_def)
  have a: "\<not> areAllCurrentPageArtworksSelected sample_state"
    by (simp add: areAllCurrentPageArtworksSelected_def sample_state_page none)
  have b: "currentPageArtworks initial_state = []"
    by (simp add: currentPageArtworks_def initial_state_def)
  show ?thesis
    using C5_toggle_all_current_page [of sample_state]
      C5_toggle_all_current_page [of initial_state] a b
    by (simp add: sample_state_page)
qed

section \<open>Selecting the first rows\<close>

text \<open>
  C9. Whatever the transport answers and whatever number is asked for, the operation
  returns, and every id that was selected before it is still selected after it.
\<close>

theorem C9_selection_only_grows:
  assumes "isArtworkSelected st j"
  shows "\<exists>st'. fst (performMultiPageSelection tr st n eff) = Inr st' \<and> isArtworkSelected st' j"
proof -
  let ?r0 = "\<lparr>currentSelections = selectedArtworkIds st, selectedCount = 0,
               pageToFetch = currentPage st\<rparr>"
  let ?r1 = "mark_artworks n (currentPageArtworks st) ?r0"
  have "map_of (currentSelections ?r1) j = Some True"
    using assms by (simp add: mark_artworks_first isArtworkSelected_def map_of_mark_ids)
  then have "map_of (currentSelections (fst (fetch_loop tr n (totalPages st) (?r1, eff)))) j
               = Some True"
    by (rule fetch_loop_mono)
  then show ?thesis
    by (simp add: performMultiPageSelection_def Let_def split_def isArtworkSelected_def)
qed

theorem C9_selection_only_grows_witness:
  "isArtworkSelected (toggleArtworkSelection sample_state 7) 7 \<and>
   (\<exists>st'. fst (performMultiPageSelection sample_transport
                  (toggleArtworkSelection sample_state 7) 10 no_effects) = Inr st' \<and>
          isArtworkSelected st' 7)"
proof -
  have sel: "isArtworkSelected (toggleArtworkSelection sample_state 7) 7"
    by (simp add: toggleArtworkSelection_def isArtworkSelected_def sample_state_def
          initial_state_def)
  show ?thesis
    using sel C9_selection_only_grows [OF sel, of sample_transport 10 no_effects] by simp
qed

text \<open>
  C1. Let nothing be selected beforehand, let \<open>n\<close> be positive and let every page after
  the current one up to the last fetch successfully. Then the operation returns without
  an error and writes nothing to the console, and the selected ids are exactly the ids of
  the first \<open>n\<close> artworks going forward from the current page, in page and display
  order. Artwork ids being unique, that makes \<open>n\<close> selected ids when at least \<open>n\<close>
  artworks are available going forward, and as many as are available when they are fewer
  than \<open>n\<close>.
\<close>

theorem C1_select_first_n:
  assumes none: "getTotalSelectedArtworkCount st = 0"
    and pos: "0 < n"
    and ok: "\<forall>q \<in> set [currentPage st + 1..totalPages st]. \<not> isl (fetchArtworks_try tr q)"
  shows "\<exists>st'. fst (performMultiPageSelection tr st n eff) = Inr st' \<and>
           console (snd (performMultiPageSelection tr st n eff)) = console eff \<and>
           (\<forall>j. isArtworkSelected st' j \<longleftrightarrow>
                  j \<in> set (take (nat n) (map artwork_id (forward_artworks tr st)))) \<and>
           (distinct (map artwork_id (forward_artworks tr st)) \<longrightarrow>
              (n \<le> int (length (forward_artworks tr st)) \<longrightarrow>
                 getTotalSelectedArtworkCount st' = n) \<and>
              (int (length (forward_artworks tr st)) < n \<longrightarrow>
                 getTotalSelectedArtworkCount st' = int (length (forward_artworks tr st))))"
proof -
  let ?ids = "take (nat n) (map artwork_id (forward_artworks tr st))"
  let ?st' = "st\<lparr>selectedArtworkIds := mark_ids ?ids (selectedArtworkIds st)\<rparr>"
  have zero: "selected_count (selectedArtworkIds st) = 0"
    using none by (simp add: getTotalSelectedArtworkCount_eq)
  have unsel: "\<And>k. map_of (selectedArtworkIds st) k \<noteq> Some True"
    using zero by (rule selected_count_zero)
  have res: "fst (performMultiPageSelection tr st n eff) = Inr ?st'"
    using performMultiPageSelection_success(1) [OF ok] by (simp add: take_map)
  have sel: "\<forall>j. isArtworkSelected ?st' j \<longleftrightarrow> j \<in> set ?ids"
    using unsel by (simp add: isArtworkSelected_def map_of_mark_ids)
  have cnt: "getTotalSelectedArtworkCount ?st' = int (length ?ids)"
    if "distinct (map artwork_id (forward_artworks tr st))"
  proof -
    have "distinct ?ids" using that by (rule distinct_take)
    then have "selected_count (mark_ids ?ids (selectedArtworkIds st)) =
                 selected_count (selectedArtworkIds st) + length ?ids"
      using unsel by (intro selected_count_mark_ids) auto
    then show ?thesis
      using zero by (simp add: getTotalSelectedArtworkCount_eq)
  qed
  have len: "n \<le> int (length (forward_artworks tr st)) \<Longrightarrow> int (length ?ids) = n"
       "int (length (forward_artworks tr st)) < n \<Longrightarrow>
          int (length ?ids) = int (length (forward_artworks tr st))"
    using pos by auto
  have full: "getTotalSelectedArtworkCount ?st' = n"
    if "distinct (map artwork_id (forward_artworks tr st))"
      and "n \<le> int (length (forward_artworks tr st))"
    using that cnt len(1) by simp
  have short: "getTotalSelectedArtworkCount ?st' = int (length (forward_artworks tr st))"
    if "distinct (map artwork_id (forward_artworks tr st))"
      and "int (length (forward_artworks tr st)) < n"
    using that cnt len(2) by simp
  have quiet: "console (snd (performMultiPageSelection tr st n eff)) = console eff"
    using ok by (rule performMultiPageSelection_success(2))
  show ?thesis
    using res quiet sel full short by blast
qed

theorem C1_select_first_n_witness:
  "getTotalSelectedArtworkCount (sample_state\<lparr>totalPages := 2\<rparr>) = 0 \<and>
   [currentPage (sample_state\<lparr>totalPages := 2\<rparr>) + 1..
      totalPages (sample_state\<lparr>totalPages := 2\<rparr>)] = [2] \<and>
   \<not> isl (fetchArtworks_try sample_transport 2) \<and>
   map artwork_id (forward_artworks sample_transport (sample_state\<lparr>totalPages := 2\<rparr>))
     = [1, 2, 3, 4] \<and>
   (\<exists>st'. fst (performMultiPageSelection sample_transport
                  (sample_state\<lparr>totalPages := 2\<rparr>) 3 no_effects) = Inr st' \<and>
          isArtworkSelected st' 3 \<and> \<not> isArtworkSelected st' 4 \<and>
          getTotalSelectedArtworkCount st' = 3) \<and>
   (\<exists>st'. fst (performMultiPageSelection sample_transport
                  (sample_state\<lparr>totalPages := 2\<rparr>) 10 no_effects) = Inr st' \<and>
          isArtworkSelected st' 4 \<and> getTotalSelectedArtworkCount st' = 4)"
proof -
  let ?s = "sample_state\<lparr>totalPages := 2\<rparr>"
  have page: "currentPageArtworks ?s = [sample_artwork 1, sample_artwork 2]"
    by (simp add: sample_state_def currentPageArtworks_def sample_response_def)
  have cur: "currentPage ?s = 1" "totalPages ?s = 2"
    by (simp_all add: sample_state_def initial_state_def)
  have none: "getTotalSelectedArtworkCount ?s = 0"
    by (simp add: getTotalSelectedArtworkCount_def sample_state_def initial_state_def)
  have ok: "\<forall>q \<in> set [currentPage ?s + 1..totalPages ?s].
              \<not> isl (fetchArtworks_try sample_transport q)"
    by (simp add: cur sample_fetch_2)
  have ids: "map artwork_id (forward_artworks sample_transport ?s) = [1, 2, 3, 4]"
    by (simp add: forward_artworks_def page cur sample_later_2 sample_artwork_id)
  have three: "\<exists>st'. fst (performMultiPageSelection sample_transport ?s 3 no_effects) = Inr st' \<and>
          isArtworkSelected st' 3 \<and> \<not> isArtworkSelected st' 4 \<and>
          getTotalSelectedArtworkCount st' = 3"
    using C1_select_first_n [OF none _ ok, of 3 no_effects] ids
      length_map [of artwork_id "forward_artworks sample_transport ?s"]
    by (auto simp: numeral_eq_Suc)
  have ten: "\<exists>st'. fst (performMultiPageSelection sample_transport ?s 10 no_effects) = Inr st' \<and>
          isArtworkSelected st' 4 \<and> getTotalSelectedArtworkCount st' = 4"
    using C1_select_first_n [OF none _ ok, of 10 no_effects] ids
      length_map [of artwork_id "forward_artworks sample_transport ?s"]
    by (auto simp: numeral_eq_Suc)
  have pages: "[currentPage ?s + 1..totalPages ?s] = [2]"
    by (simp add: cur)
  have two: "\<not> isl (fetchArtworks_try sample_transport 2)"
    by (simp add: sample_fetch_2)
  show ?thesis
    using none pages two ids three ten by blast
qed

text \<open>
  C3. Let the run reach page \<open>p\<close>: the pages between the current page and \<open>p\<close> fetch
  successfully and, together with the current page, hold fewer than \<open>n\<close> artworks. If the
  fetch of page \<open>p\<close> throws, the operation returns normally; the new selection is the old
  one with every artwork of the current page and of the pages before \<open>p\<close> marked; no page
  after \<open>p\<close> is requested; and the failure is written to the console, by the gateway and
  by the operation.
\<close>

theorem C3_fetch_failure_keeps_partial_selection:
  assumes "currentPage st < p" and "p \<le> totalPages st"
    and "fetchArtworks_try tr p = Inl e"
    and "\<forall>q \<in> set [currentPage st + 1..p - 1]. \<not> isl (fetchArtworks_try tr q)"
    and "int (length (currentPageArtworks st @ later_artworks tr (currentPage st) (p - 1))) < n"
  shows "\<exists>st' eff'.
           performMultiPageSelection tr st n eff = (Inr st', eff') \<and>
           selectedArtworkIds st' =
             mark_ids (map artwork_id
                         (currentPageArtworks st @ later_artworks tr (currentPage st) (p - 1)))
               (selectedArtworkIds st) \<and>
           (\<forall>a \<in> set (currentPageArtworks st @ later_artworks tr (currentPage st) (p - 1)).
              isArtworkSelected st' (artwork_id a)) \<and>
           requests eff' = requests eff @ [currentPage st + 1..p] \<and>
           console eff' = console eff @
             [ConsoleError ''Error fetching artworks:'' e,
              ConsoleError (''Error fetching page '' @ number_toString p @ '' for selection:'') e]"
proof -
  let ?cur = "currentPageArtworks st"
  let ?later = "later_artworks tr (currentPage st) (p - 1)"
  let ?r1 = "\<lparr>currentSelections = mark_ids (map artwork_id ?cur) (selectedArtworkIds st),
      selectedCount = int (length ?cur), pageToFetch = currentPage st\<rparr>"
  have room: "length ?cur \<le> nat n"
    using assms(5) by simp
  have first: "mark_artworks n ?cur \<lparr>currentSelections = selectedArtworkIds st, selectedCount = 0,
                 pageToFetch = currentPage st\<rparr> = ?r1"
    using room by (simp add: mark_artworks_first min_def)
  have loop: "fetch_loop tr n (totalPages st) (?r1, eff) =
          (?r1\<lparr>currentSelections :=
                mark_ids (map artwork_id (later_artworks tr (pageToFetch ?r1) (p - 1)))
                  (currentSelections ?r1),
              selectedCount :=
                selectedCount ?r1 + int (length (later_artworks tr (pageToFetch ?r1) (p - 1))),
              pageToFetch := p\<rparr>,
           eff\<lparr>requests := requests eff @ [pageToFetch ?r1 + 1..p],
               console := console eff @
                 [ConsoleError ''Error fetching artworks:'' e,
                  ConsoleError (''Error fetching page '' @ number_toString p
                                  @ '' for selection:'') e]\<rparr>)"
    using assms by (intro fetch_loop_failure) simp_all
  show ?thesis
    by (auto simp: performMultiPageSelection_def Let_def first loop mark_ids_append
          isArtworkSelected_def map_of_mark_ids)
qed

theorem C3_fetch_failure_keeps_partial_selection_witness:
  "currentPage sample_state < 3 \<and> 3 \<le> totalPages sample_state \<and>
   fetchArtworks_try sample_transport 3 = Inl (Error ''HTTP error! status: 500'') \<and>
   [currentPage sample_state + 1..3 - 1] = [2] \<and>
   \<not> isl (fetchArtworks_try sample_transport 2) \<and>
   (\<exists>st' eff'.
      performMultiPageSelection sample_transport sample_state 10 no_effects = (Inr st', eff') \<and>
      isArtworkSelected st' 1 \<and> isArtworkSelected st' 4 \<and>
      requests eff' = [2, 3] \<and>
      console eff' =
        [ConsoleError ''Error fetching artworks:'' (Error ''HTTP error! status: 500''),
         ConsoleError ''Error fetching page 3 for selection:''
           (Error ''HTTP error! status: 500'')])"
proof -
  have cur: "currentPage sample_state = 1" "totalPages sample_state = 3"
    by (simp_all add: sample_state_def initial_state_def)
  have h1: "currentPage sample_state < 3" and h2: "3 \<le> totalPages sample_state"
    by (simp_all add: cur)
  have h4: "\<forall>q \<in> set [currentPage sample_state + 1..3 - 1].
              \<not> isl (fetchArtworks_try sample_transport q)"
    by (simp add: cur sample_fetch_2)
  have h5: "int (length (currentPageArtworks sample_state @
                           later_artworks sample_transport (currentPage sample_state) (3 - 1)))
              < 10"
    by (simp add: cur sample_state_page sample_later_2)
  have three: "number_toString 3 = ''3''"
    by (simp add: number_toString_def string_of_nat.simps digit_char_def)
  have nil: "requests no_effects = []" "console no_effects = []"
    by (simp_all add: no_effects_def)
  show ?thesis
    using C3_fetch_failure_keeps_partial_selection
            [OF h1 h2 sample_fetch_3 h4 h5, of no_effects]
      h1 h2 sample_fetch_3
    by (auto simp: cur sample_state_page sample_later_2 sample_artwork_id three nil
          sample_fetch_2)
qed

section \<open>A page that fails to load\<close>

text \<open>
  C8. When the server answers a page request with a response that is not ok, of status
  \<open>s\<close>, the gateway makes that one request, writes the error to the console and throws
  to its caller an error with the message \<open>HTTP error! status: s\<close>. For status 500, once
  the query has settled with that error, the component shows
  \<open>Failed to load artworks: HTTP error! status: 500\<close> and renders no rows.
\<close>

theorem C8_http_error_reported:
  assumes "fetch_http pageNumber = Inr response" and "\<not> ok response"
  shows "fetchArtworks fetch_http pageNumber eff =
           (Inl (Error (''HTTP error! status: '' @ number_toString (status response))),
            eff\<lparr>requests := requests eff @ [pageNumber],
                console := console eff @
                  [ConsoleError ''Error fetching artworks:''
                     (Error (''HTTP error! status: '' @ number_toString (status response)))]\<rparr>) \<and>
         (status response = 500 \<longrightarrow>
            App_render (query_settled st (fst (fetchArtworks fetch_http pageNumber eff)))
              = ErrorMessage ''Failed to load artworks: HTTP error! status: 500'' \<and>
            rendered_rows
              (App_render (query_settled st (fst (fetchArtworks fetch_http pageNumber eff)))) = [])"
proof -
  have n500: "number_toString 500 = ''500''"
    by (simp add: number_toString_def string_of_nat.simps digit_char_def)
  show ?thesis
    using assms
    by (simp add: fetchArtworks_def fetchArtworks_try_def query_settled_def App_render_def
          rendered_rows_def n500)
qed

theorem C8_http_error_reported_witness:
  "sample_transport 3 =
     Inr \<lparr>ok = False, status = 500, json = Inl (Error ''Unexpected token'')\<rparr> \<and>
   fst (fetchArtworks sample_transport 3 no_effects) = Inl (Error ''HTTP error! status: 500'') \<and>
   requests (snd (fetchArtworks sample_transport 3 no_effects)) = [3] \<and>
   App_render (query_settled sample_state (fst (fetchArtworks sample_transport 3 no_effects)))
     = ErrorMessage ''Failed to load artworks: HTTP error! status: 500''"
proof -
  let ?r = "\<lparr>ok = False, status = 500, json = Inl (Error ''Unexpected token'')\<rparr>"
  have t: "sample_transport 3 = Inr ?r"
    by (simp add: sample_transport_def)
  have nok: "\<not> ok ?r"
    by simp
  have n500: "number_toString 500 = ''500''"
    by (simp add: number_toString_def string_of_nat.simps digit_char_def)
  have s500: "status ?r = 500"
    by simp
  note inst = C8_http_error_reported [of sample_transport 3 ?r no_effects sample_state, OF t nok]
  have gateway: "fetchArtworks sample_transport 3 no_effects =
      (Inl (Error ''HTTP error! status: 500''),
       \<lparr>requests = [3],
        console = [ConsoleError ''Error fetching artworks:''
                     (Error ''HTTP error! status: 500'')]\<rparr>)"
    using inst [THEN conjunct1] by (simp add: n500 no_effects_def)
  have shown: "App_render (query_settled sample_state
                  (fst (fetchArtworks sample_transport 3 no_effects)))
                = ErrorMessage ''Failed to load artworks: HTTP error! status: 500''"
    using inst [THEN conjunct2] s500 by blast
  show ?thesis
    using t shown by (simp add: gateway)
qed

end
